theory Spec2Isabelle
  imports Complex_Main "HOL-Library.AList"
begin

section \<open>Data model\<close>

text \<open>
  Both \<^verbatim>\<open>src/main.py\<close> and \<^verbatim>\<open>src/data_fetcher.py\<close> work on a pandas DataFrame, one
  row per bar, with the columns \<^verbatim>\<open>Open\<close>, \<^verbatim>\<open>High\<close>, \<^verbatim>\<open>Low\<close>, \<^verbatim>\<open>Close\<close> and the
  dates as the index. A DataFrame is modelled as the list of its rows; \<open>data ! i\<close> is the
  row at position \<open>i\<close>, so \<^verbatim>\<open>data['High'].iloc[i]\<close> (and the positional
  \<^verbatim>\<open>data['High'][i]\<close> of \<^verbatim>\<open>data_fetcher.py\<close>) is \<open>High (data ! i)\<close> and
  \<^verbatim>\<open>data.index[i]\<close> is \<open>Date (data ! i)\<close>. A price is the number a bar holds: a
  finite float64 is a rational, and the comparisons of the detection are exact on it.
  The arithmetic on prices, which can round, is in the section on Gann levels. Dates are
  day numbers.
\<close>

type_synonym price = rat
type_synonym date = int

record bar =
  Date :: date
  Open :: price
  High :: price
  Low :: price
  Close :: price

type_synonym series = "bar list"

text \<open>A match is the tuple \<^verbatim>\<open>(data.index[i], "Head and Shoulders", data['High'][i])\<close>.\<close>

type_synonym pattern_match = "date \<times> string \<times> price"

definition available_patterns :: "string list" where
  "available_patterns =
    [''Head and Shoulders'',
     ''Inverted Head and Shoulders'',
     ''Double Top'',
     ''Double Bottom'',
     ''Bullish Engulfing'',
     ''Bearish Engulfing'',
     ''Doji'',
     ''Hammer'',
     ''Shooting Star'',
     ''Morning Star'',
     ''Evening Star'']"

section \<open>Head and Shoulders detection\<close>

text \<open>
  \<^verbatim>\<open>detect_head_and_shoulders\<close> is the same function in both files:
  \<^verbatim>\<open>
    patterns = []
    for i in range(2, len(data) - 2):
        left_shoulder = data['High'][i - 2] < data['High'][i - 1] < data['High'][i]
        head = data['High'][i - 1] > data['High'][i + 1]
        right_shoulder = data['High'][i + 1] < data['High'][i + 2] < data['High'][i]
        if left_shoulder and head and right_shoulder:
            patterns.append((data.index[i], "Head and Shoulders", data['High'][i]))
    return patterns
  \<close>
  The three tests are the loop body's local variables; the loop is a recursion over the
  indices of the range with the list \<open>patterns\<close> as its state.
\<close>

definition left_shoulder :: "series \<Rightarrow> nat \<Rightarrow> bool" where
  "left_shoulder data i \<longleftrightarrow>
     High (data ! (i - 2)) < High (data ! (i - 1)) \<and> High (data ! (i - 1)) < High (data ! i)"

definition head :: "series \<Rightarrow> nat \<Rightarrow> bool" where
  "head data i \<longleftrightarrow> High (data ! (i - 1)) > High (data ! (i + 1))"

definition right_shoulder :: "series \<Rightarrow> nat \<Rightarrow> bool" where
  "right_shoulder data i \<longleftrightarrow>
     High (data ! (i + 1)) < High (data ! (i + 2)) \<and> High (data ! (i + 2)) < High (data ! i)"

fun hs_loop :: "series \<Rightarrow> nat list \<Rightarrow> pattern_match list \<Rightarrow> pattern_match list" where
  "hs_loop data [] patterns = patterns"
| "hs_loop data (i # rest) patterns =
     hs_loop data rest
       (if left_shoulder data i \<and> head data i \<and> right_shoulder data i
        then patterns @ [(Date (data ! i), ''Head and Shoulders'', High (data ! i))]
        else patterns)"

text \<open>
  \<^verbatim>\<open>range(2, len(data) - 2)\<close> is empty when \<^verbatim>\<open>len(data) - 2 <= 2\<close>, also when that
  difference is negative; \<open>[2..<length data - 2]\<close> with the truncating subtraction of
  \<open>nat\<close> is empty for exactly the same lengths. Every index the loop reads,
  \<open>i - 2\<close> to \<open>i + 2\<close>, is then inside the series.
\<close>

definition detect_head_and_shoulders :: "series \<Rightarrow> pattern_match list" where
  "detect_head_and_shoulders data = hs_loop data [2..<length data - 2] []"

section \<open>Dispatch on the requested pattern\<close>

text \<open>
  \<^verbatim>\<open>src/main.py\<close>, one requested pattern:
  \<^verbatim>\<open>
    patterns = []
    if selected_pattern == "Head and Shoulders":
        patterns.extend(self.detect_head_and_shoulders(data))
    return patterns
  \<close>
\<close>

definition detect_patterns_main :: "series \<Rightarrow> string \<Rightarrow> pattern_match list" where
  "detect_patterns_main data selected_pattern =
     (if selected_pattern = ''Head and Shoulders''
      then [] @ detect_head_and_shoulders data
      else [])"

text \<open>
  \<^verbatim>\<open>src/data_fetcher.py\<close>, a list of requested patterns and a dict as the result. Each
  branch of the \<^verbatim>\<open>elif\<close> chain calls a method of \<^verbatim>\<open>self\<close>; the class
  \<^verbatim>\<open>PatternDetector\<close> of that file defines \<^verbatim>\<open>detect_patterns\<close> and
  \<^verbatim>\<open>detect_head_and_shoulders\<close> only, so looking up any other detector raises
  \<^verbatim>\<open>AttributeError\<close>, which nothing in \<^verbatim>\<open>detect_patterns\<close> catches.
\<close>

datatype error = AttributeError string

definition method_name :: "string \<Rightarrow> string option" where
  "method_name selected_pattern =
     (if selected_pattern = ''Head and Shoulders'' then Some ''detect_head_and_shoulders''
      else if selected_pattern = ''Inverted Head and Shoulders''
        then Some ''detect_inverted_head_and_shoulders''
      else if selected_pattern = ''Double Top'' then Some ''detect_double_top''
      else if selected_pattern = ''Double Bottom'' then Some ''detect_double_bottom''
      else if selected_pattern = ''Bullish Engulfing'' then Some ''detect_bullish_engulfing''
      else if selected_pattern = ''Bearish Engulfing'' then Some ''detect_bearish_engulfing''
      else if selected_pattern = ''Doji'' then Some ''detect_doji''
      else if selected_pattern = ''Hammer'' then Some ''detect_hammer''
      else if selected_pattern = ''Shooting Star'' then Some ''detect_shooting_star''
      else if selected_pattern = ''Morning Star'' then Some ''detect_morning_star''
      else if selected_pattern = ''Evening Star'' then Some ''detect_evening_star''
      else None)"

definition call_method :: "string \<Rightarrow> series \<Rightarrow> error + pattern_match list" where
  "call_method name data =
     (if name = ''detect_head_and_shoulders'' then Inr (detect_head_and_shoulders data)
      else Inl (AttributeError name))"

text \<open>
  The dict \<open>patterns\<close> is an association list in insertion order;
  \<^verbatim>\<open>patterns[k] = v\<close> replaces the value of a key already there and appends a new key
  otherwise, which is \<^const>\<open>AList.update\<close>. A requested string that matches no branch
  leaves the dict as it is.
\<close>

type_synonym detection_result = "(string \<times> pattern_match list) list"

fun detect_patterns_loop ::
  "series \<Rightarrow> string list \<Rightarrow> detection_result \<Rightarrow> error + detection_result" where
  "detect_patterns_loop data [] patterns = Inr patterns"
| "detect_patterns_loop data (selected_pattern # rest) patterns =
     (case method_name selected_pattern of
        None \<Rightarrow> detect_patterns_loop data rest patterns
      | Some m \<Rightarrow>
          (case call_method m data of
             Inl e \<Rightarrow> Inl e
           | Inr found \<Rightarrow>
               detect_patterns_loop data rest (AList.update selected_pattern found patterns)))"

definition detect_patterns :: "series \<Rightarrow> string list \<Rightarrow> error + detection_result" where
  "detect_patterns data selected_patterns = detect_patterns_loop data selected_patterns []"

section \<open>Gann levels\<close>

text \<open>
  \<^verbatim>\<open>
    max_price = data['High'].max()
    min_price = data['Low'].min()
    range_price = max_price - min_price
    gann_levels = [min_price + (i * range_price / 8) for i in range(1, 9)]
    return gann_levels
  \<close>
  The columns hold float64 values, and the four operations are float64 operations. A
  float is a finite number, an infinity or NaN. \<^verbatim>\<open>Series.max()\<close> and
  \<^verbatim>\<open>Series.min()\<close> of an empty column do not raise: they return NaN.
\<close>

datatype pyfloat = Num price | PInf | MInf | NaN

fun column_max :: "price list \<Rightarrow> pyfloat" where
  "column_max [] = NaN"
| "column_max (x # xs) = Num (fold max xs x)"

fun column_min :: "price list \<Rightarrow> pyfloat" where
  "column_min [] = NaN"
| "column_min (x # xs) = Num (fold min xs x)"

text \<open>
  A float64 operation on finite operands returns the exact result, rounded: a finite
  float, or an infinity when the result overflows. The rounding is the parameter
  \<open>rnd\<close>, from the exact rational result to the float returned. Nothing is assumed
  about it here; the theorems name what they need of it (it is monotone, and it leaves
  a value that already is a float unchanged), which float64's round-to-nearest
  satisfies. \<open>rnd = Num\<close> is arithmetic that never rounds: the decimal arithmetic of
  the specification. The cases with an infinite or NaN operand are those of IEEE 754.
\<close>

fun fsub :: "(price \<Rightarrow> pyfloat) \<Rightarrow> pyfloat \<Rightarrow> pyfloat \<Rightarrow> pyfloat" where
  "fsub rnd (Num a) (Num b) = rnd (a - b)"
| "fsub rnd (Num a) PInf = MInf"
| "fsub rnd (Num a) MInf = PInf"
| "fsub rnd PInf (Num b) = PInf"
| "fsub rnd PInf MInf = PInf"
| "fsub rnd MInf (Num b) = MInf"
| "fsub rnd MInf PInf = MInf"
| "fsub rnd _ _ = NaN"

fun fadd :: "(price \<Rightarrow> pyfloat) \<Rightarrow> pyfloat \<Rightarrow> pyfloat \<Rightarrow> pyfloat" where
  "fadd rnd (Num a) (Num b) = rnd (a + b)"
| "fadd rnd (Num a) PInf = PInf"
| "fadd rnd (Num a) MInf = MInf"
| "fadd rnd PInf (Num b) = PInf"
| "fadd rnd PInf PInf = PInf"
| "fadd rnd MInf (Num b) = MInf"
| "fadd rnd MInf MInf = MInf"
| "fadd rnd _ _ = NaN"

text \<open>
  \<^verbatim>\<open>i * x\<close> for a Python int \<open>i\<close> (here 1 to 8, which converts to a float exactly),
  and \<^verbatim>\<open>x / 8\<close>.
\<close>

fun fscale :: "(price \<Rightarrow> pyfloat) \<Rightarrow> nat \<Rightarrow> pyfloat \<Rightarrow> pyfloat" where
  "fscale rnd i (Num a) = rnd (of_nat i * a)"
| "fscale rnd i PInf = (if i = 0 then NaN else PInf)"
| "fscale rnd i MInf = (if i = 0 then NaN else MInf)"
| "fscale rnd i NaN = NaN"

fun fdiv8 :: "(price \<Rightarrow> pyfloat) \<Rightarrow> pyfloat \<Rightarrow> pyfloat" where
  "fdiv8 rnd (Num a) = rnd (a / 8)"
| "fdiv8 rnd PInf = PInf"
| "fdiv8 rnd MInf = MInf"
| "fdiv8 rnd NaN = NaN"

definition calculate_gann_levels :: "(price \<Rightarrow> pyfloat) \<Rightarrow> series \<Rightarrow> pyfloat list" where
  "calculate_gann_levels rnd data =
     (let max_price = column_max (map High data);
          min_price = column_min (map Low data);
          range_price = fsub rnd max_price min_price
      in map (\<lambda>i. fadd rnd min_price (fdiv8 rnd (fscale rnd i range_price))) [1..<9])"

text \<open>
  Python's \<^verbatim>\<open><\<close> and \<^verbatim>\<open><=\<close> on floats: every comparison with NaN is false, and the
  infinities are below and above every finite float.
\<close>

fun fless :: "pyfloat \<Rightarrow> pyfloat \<Rightarrow> bool" where
  "fless (Num a) (Num b) \<longleftrightarrow> a < b"
| "fless (Num a) PInf \<longleftrightarrow> True"
| "fless MInf (Num b) \<longleftrightarrow> True"
| "fless MInf PInf \<longleftrightarrow> True"
| "fless _ _ \<longleftrightarrow> False"

fun fle :: "pyfloat \<Rightarrow> pyfloat \<Rightarrow> bool" where
  "fle (Num a) (Num b) \<longleftrightarrow> a \<le> b"
| "fle (Num a) PInf \<longleftrightarrow> True"
| "fle MInf (Num b) \<longleftrightarrow> True"
| "fle MInf PInf \<longleftrightarrow> True"
| "fle MInf MInf \<longleftrightarrow> True"
| "fle PInf PInf \<longleftrightarrow> True"
| "fle _ _ \<longleftrightarrow> False"

text \<open>
  A small rounding to compute with: to the multiple of \<open>1/2\<close> below, overflowing beyond
  \<open>1000\<close>. It is monotone, it rounds (\<open>1/8\<close> becomes \<open>0\<close>), and it leaves the multiples
  of \<open>1/2\<close> up to \<open>1000\<close> unchanged.
\<close>

definition round_half :: "price \<Rightarrow> pyfloat" where
  "round_half x =
     (if 1000 < x then PInf
      else if x < - 1000 then MInf
      else Num (of_int \<lfloor>2 * x\<rfloor> / 2))"

section \<open>The rules in the specification's words\<close>

text \<open>
  The Head and Shoulders rule as the specification states it, to be compared with the
  loop body of \<^const>\<open>hs_loop\<close>: \<open>H[i-2] < H[i-1] < H[i]\<close> and \<open>H[i-1] > H[i+1]\<close> and
  \<open>H[i+1] < H[i+2] < H[i]\<close>.
\<close>

definition head_and_shoulders_rule_spec :: "series \<Rightarrow> nat \<Rightarrow> bool" where
  "head_and_shoulders_rule_spec data i \<longleftrightarrow>
     High (data ! (i - 2)) < High (data ! (i - 1)) \<and> High (data ! (i - 1)) < High (data ! i) \<and>
     High (data ! (i - 1)) > High (data ! (i + 1)) \<and>
     High (data ! (i + 1)) < High (data ! (i + 2)) \<and> High (data ! (i + 2)) < High (data ! i)"

text \<open>
  The specification's Inverted Head and Shoulders rule, "the mirror test on Lows with all
  inequalities reversed". Neither source file has a function for it; it is written here
  only to evaluate the specification's own example against the specification's own rule.
\<close>

definition inverted_head_and_shoulders_rule_spec :: "series \<Rightarrow> nat \<Rightarrow> bool" where
  "inverted_head_and_shoulders_rule_spec data i \<longleftrightarrow>
     Low (data ! (i - 2)) > Low (data ! (i - 1)) \<and> Low (data ! (i - 1)) > Low (data ! i) \<and>
     Low (data ! (i - 1)) < Low (data ! (i + 1)) \<and>
     Low (data ! (i + 1)) > Low (data ! (i + 2)) \<and> Low (data ! (i + 2)) > Low (data ! i)"

abbreviation hs_match :: "series \<Rightarrow> nat \<Rightarrow> pattern_match" where
  "hs_match data i \<equiv> (Date (data ! i), ''Head and Shoulders'', High (data ! i))"

section \<open>Concrete series\<close>

text \<open>Highs \<open>[10, 12, 15, 11, 13]\<close>: the one window of this series passes all three tests.\<close>

definition hs_example :: series where
  "hs_example =
     [\<lparr>Date = 0, Open = 9, High = 10, Low = 8, Close = 9\<rparr>,
      \<lparr>Date = 1, Open = 11, High = 12, Low = 10, Close = 11\<rparr>,
      \<lparr>Date = 2, Open = 14, High = 15, Low = 13, Close = 14\<rparr>,
      \<lparr>Date = 3, Open = 10, High = 11, Low = 9, Close = 10\<rparr>,
      \<lparr>Date = 4, Open = 12, High = 13, Low = 11, Close = 12\<rparr>]"

text \<open>Highs \<open>[10, 12, 15, 13, 11]\<close>, the specification's Head and Shoulders example.\<close>

definition peak_series :: series where
  "peak_series =
     [\<lparr>Date = 0, Open = 9, High = 10, Low = 8, Close = 9\<rparr>,
      \<lparr>Date = 1, Open = 11, High = 12, Low = 10, Close = 11\<rparr>,
      \<lparr>Date = 2, Open = 14, High = 15, Low = 13, Close = 14\<rparr>,
      \<lparr>Date = 3, Open = 12, High = 13, Low = 11, Close = 12\<rparr>,
      \<lparr>Date = 4, Open = 10, High = 11, Low = 9, Close = 10\<rparr>]"

text \<open>Lows \<open>[15, 13, 10, 12, 14]\<close>, the specification's inverted example.\<close>

definition trough_series :: series where
  "trough_series =
     [\<lparr>Date = 0, Open = 16, High = 17, Low = 15, Close = 16\<rparr>,
      \<lparr>Date = 1, Open = 14, High = 15, Low = 13, Close = 14\<rparr>,
      \<lparr>Date = 2, Open = 11, High = 12, Low = 10, Close = 11\<rparr>,
      \<lparr>Date = 3, Open = 13, High = 14, Low = 12, Close = 13\<rparr>,
      \<lparr>Date = 4, Open = 15, High = 16, Low = 14, Close = 15\<rparr>]"

text \<open>Four bars: one fewer than the Head and Shoulders window.\<close>

definition short_series :: series where
  "short_series =
     [\<lparr>Date = 0, Open = 9, High = 10, Low = 8, Close = 9\<rparr>,
      \<lparr>Date = 1, Open = 11, High = 12, Low = 10, Close = 11\<rparr>,
      \<lparr>Date = 2, Open = 14, High = 15, Low = 13, Close = 14\<rparr>,
      \<lparr>Date = 3, Open = 10, High = 11, Low = 9, Close = 10\<rparr>]"

text \<open>Two bars whose Lows and Highs span \<open>[100, 200]\<close>.\<close>

definition span_series :: series where
  "span_series =
     [\<lparr>Date = 0, Open = 110, High = 150, Low = 100, Close = 140\<rparr>,
      \<lparr>Date = 1, Open = 140, High = 200, Low = 120, Close = 180\<rparr>]"

text \<open>One bar that did not move: open, high, low and close are the same price.\<close>

definition flat_series :: series where
  "flat_series = [\<lparr>Date = 0, Open = 5, High = 5, Low = 5, Close = 5\<rparr>]"

text \<open>One bar from 1 to 2: the eight exact levels are \<open>1/8\<close> apart.\<close>

definition narrow_series :: series where
  "narrow_series = [\<lparr>Date = 0, Open = 1, High = 2, Low = 1, Close = 2\<rparr>]"

section \<open>The scan as a filter\<close>

lemma hs_loop_acc: "hs_loop data idxs ps = ps @ hs_loop data idxs []"
proof (induction idxs arbitrary: ps)
  case Nil
  show ?case by simp
next
  case (Cons i rest)
  show ?case
    using Cons.IH [of "ps @ [hs_match data i]"] Cons.IH [of "[hs_match data i]"] Cons.IH [of ps]
    by simp
qed

lemma hs_loop_append: "hs_loop data (xs @ ys) ps = hs_loop data xs ps @ hs_loop data ys []"
proof (induction xs arbitrary: ps)
  case Nil
  show ?case using hs_loop_acc [of data ys ps] by simp
next
  case (Cons i rest)
  show ?case by (simp add: Cons.IH)
qed

lemma hs_loop_filter:
  "hs_loop data idxs [] = map (hs_match data) (filter (head_and_shoulders_rule_spec data) idxs)"
proof (induction idxs)
  case Nil
  show ?case by simp
next
  case (Cons i rest)
  have "head_and_shoulders_rule_spec data i \<longleftrightarrow>
          left_shoulder data i \<and> head data i \<and> right_shoulder data i"
    by (auto simp: head_and_shoulders_rule_spec_def left_shoulder_def head_def
        right_shoulder_def)
  then show ?case
    using hs_loop_acc [of data rest "[hs_match data i]"] Cons.IH by simp
qed

lemma detect_head_and_shoulders_filter:
  "detect_head_and_shoulders data =
     map (hs_match data) (filter (head_and_shoulders_rule_spec data) [2..<length data - 2])"
  by (simp add: detect_head_and_shoulders_def hs_loop_filter)

text \<open>The reads of the loop body stay inside the series, and \<open>i - 2\<close> does not truncate.\<close>

lemma hs_loop_reads_in_range:
  assumes "i \<in> set [2..<length data - 2]"
  shows "2 \<le> i \<and> i + 2 < length data"
  using assms by auto

lemma upt_split_at:
  assumes "a \<le> i" and "i < b"
  shows "[a..<b] = [a..<i] @ i # [Suc i..<b]"
proof -
  have "[a..<b] = [a..<i] @ [i..<b]"
    using assms by (metis le_Suc_ex less_imp_le_nat upt_add_eq_append)
  then show ?thesis using assms by (simp add: upt_conv_Cons)
qed

lemma filter_eq_index:
  assumes "distinct xs"
  shows "filter (\<lambda>j. j = i \<and> P j) xs = (if i \<in> set xs \<and> P i then [i] else [])"
  using assms by (induction xs) auto

lemma detect_head_and_shoulders_short:
  assumes "length data < 5"
  shows "detect_head_and_shoulders data = []"
proof -
  have "length data - 2 \<le> 2" using assms by linarith
  then have "[2..<length data - 2] = []" by simp
  then show ?thesis unfolding detect_head_and_shoulders_def by (simp only: hs_loop.simps)
qed

lemma five_rows:
  assumes "map f xs = [a, b, c, d, e]"
  shows "length xs = 5" and "f (xs ! 0) = a" and "f (xs ! 1) = b" and "f (xs ! 2) = c"
    and "f (xs ! 3) = d" and "f (xs ! 4) = e"
proof -
  show len: "length xs = 5" using arg_cong [OF assms, of length] by simp
  have nth: "f (xs ! n) = [a, b, c, d, e] ! n" if "n < 5" for n
    using that len nth_map [of n xs f] assms by simp
  from nth [of 0] nth [of 1] nth [of 2] nth [of 3] nth [of 4]
  show "f (xs ! 0) = a" and "f (xs ! 1) = b" and "f (xs ! 2) = c"
    and "f (xs ! 3) = d" and "f (xs ! 4) = e"
    by simp_all
qed

section \<open>The dispatch\<close>

lemma method_name_None_iff: "method_name k = None \<longleftrightarrow> k \<notin> set available_patterns"
  by (simp add: method_name_def available_patterns_def)

lemma method_name_head_and_shoulders:
  "method_name k = Some ''detect_head_and_shoulders'' \<longleftrightarrow> k = ''Head and Shoulders''"
  by (simp add: method_name_def)

lemma detect_patterns_only_head_and_shoulders:
  "detect_patterns data [''Head and Shoulders''] =
     Inr [(''Head and Shoulders'', detect_head_and_shoulders data)]"
  by (simp add: detect_patterns_def method_name_def call_method_def)

lemma set_update_cases:
  "(k', v') \<in> set (AList.update k v al) \<Longrightarrow> (k', v') \<in> set al \<or> (k' = k \<and> v' = v)"
  by (induction al) (auto split: if_splits)

text \<open>Whatever the dict holds when the loop returns was written by the one detector.\<close>

lemma detect_patterns_loop_values:
  assumes "detect_patterns_loop data selected patterns = Inr r" and "(k, ms) \<in> set r"
  shows "(k, ms) \<in> set patterns \<or> ms = detect_head_and_shoulders data"
  using assms
proof (induction selected arbitrary: patterns)
  case Nil
  then show ?case by simp
next
  case (Cons s rest)
  show ?case
  proof (cases "method_name s")
    case None
    with Cons show ?thesis by simp
  next
    case (Some m)
    show ?thesis
    proof (cases "m = ''detect_head_and_shoulders''")
      case True
      with Some Cons.prems
      have "detect_patterns_loop data rest
              (AList.update s (detect_head_and_shoulders data) patterns) = Inr r"
        by (simp add: call_method_def)
      from Cons.IH [OF this Cons.prems(2)] show ?thesis
        by (auto dest: set_update_cases)
    next
      case False
      with Some Cons.prems show ?thesis by (simp add: call_method_def)
    qed
  qed
qed

lemma detect_patterns_values:
  assumes "detect_patterns data selected = Inr r" and "(k, ms) \<in> set r"
  shows "ms = detect_head_and_shoulders data"
  using detect_patterns_loop_values [of data selected "[]" r k ms] assms
  by (simp add: detect_patterns_def)

text \<open>One requested catalog kind without a detector is enough for the whole call to raise.\<close>

lemma detect_patterns_loop_missing_method:
  assumes "kind \<in> set selected" and "kind \<in> set available_patterns"
    and "kind \<noteq> ''Head and Shoulders''"
  shows "isl (detect_patterns_loop data selected patterns)"
  using assms(1)
proof (induction selected arbitrary: patterns)
  case Nil
  then show ?case by simp
next
  case (Cons s rest)
  show ?case
  proof (cases "method_name s")
    case None
    then have "s \<noteq> kind" using assms(2) by (auto simp: method_name_None_iff)
    with Cons None show ?thesis by simp
  next
    case (Some m)
    show ?thesis
    proof (cases "m = ''detect_head_and_shoulders''")
      case True
      then have "s \<noteq> kind" using Some assms(3) by (simp add: method_name_head_and_shoulders)
      with Cons Some True show ?thesis by (simp add: call_method_def)
    next
      case False
      with Some show ?thesis by (simp add: call_method_def)
    qed
  qed
qed

text \<open>Strings outside the catalog fall through the \<^verbatim>\<open>elif\<close> chain.\<close>

lemma detect_patterns_loop_skips_unknown:
  assumes "set selected \<inter> set available_patterns \<subseteq> {''Head and Shoulders''}"
  shows "detect_patterns_loop data selected patterns =
           Inr (if ''Head and Shoulders'' \<in> set selected
                then AList.update ''Head and Shoulders'' (detect_head_and_shoulders data) patterns
                else patterns)"
  using assms
proof (induction selected arbitrary: patterns)
  case Nil
  show ?case by simp
next
  case (Cons s rest)
  from Cons.prems have rest: "set rest \<inter> set available_patterns \<subseteq> {''Head and Shoulders''}"
    by auto
  show ?case
  proof (cases "s = ''Head and Shoulders''")
    case True
    then show ?thesis
      using Cons.IH [OF rest]
      by (simp add: method_name_def call_method_def)
  next
    case False
    with Cons.prems have "s \<notin> set available_patterns" by auto
    then have "method_name s = None" by (simp add: method_name_None_iff)
    with False show ?thesis using Cons.IH [OF rest] by simp
  qed
qed

section \<open>Gann levels of a series with bars\<close>

lemma column_max_nonempty: "xs \<noteq> [] \<Longrightarrow> column_max xs = Num (Max (set xs))"
proof (cases xs)
  case Nil
  assume "xs \<noteq> []"
  with Nil show ?thesis by simp
next
  case (Cons x rest)
  then show ?thesis by (simp only: column_max.simps Max.set_eq_fold)
qed

lemma column_min_nonempty: "xs \<noteq> [] \<Longrightarrow> column_min xs = Num (Min (set xs))"
proof (cases xs)
  case Nil
  assume "xs \<noteq> []"
  with Nil show ?thesis by simp
next
  case (Cons x rest)
  then show ?thesis by (simp only: column_min.simps Min.set_eq_fold)
qed

text \<open>The code's expression, operation by operation, on the maximum and the minimum.\<close>

lemma calculate_gann_levels_rounded:
  assumes "data \<noteq> []"
  shows "calculate_gann_levels rnd data =
           map (\<lambda>i. fadd rnd (Num (Min (set (map Low data))))
                  (fdiv8 rnd (fscale rnd i
                     (fsub rnd (Num (Max (set (map High data))))
                        (Num (Min (set (map Low data)))))))) [1..<9]"
proof -
  have "column_max (map High data) = Num (Max (set (map High data)))"
    using assms by (simp only: column_max_nonempty map_is_Nil_conv not_False_eq_True)
  moreover have "column_min (map Low data) = Num (Min (set (map Low data)))"
    using assms by (simp only: column_min_nonempty map_is_Nil_conv not_False_eq_True)
  ultimately show ?thesis
    by (simp only: calculate_gann_levels_def Let_def)
qed

text \<open>Without rounding the expression is the formula over the rationals.\<close>

lemma calculate_gann_levels_nonempty:
  assumes "data \<noteq> []"
  shows "calculate_gann_levels Num data =
           map (\<lambda>i. Num (Min (set (map Low data)) +
                  of_nat i * (Max (set (map High data)) - Min (set (map Low data))) / 8)) [1..<9]"
proof -
  have "Num (Max (set (map High data)) - Min (set (map Low data))) =
          fsub Num (Num (Max (set (map High data)))) (Num (Min (set (map Low data))))"
    by simp
  show ?thesis
    unfolding calculate_gann_levels_rounded [OF assms] by simp
qed

lemma upt_1_9: "[Suc 0..<9] = [1, 2, 3, 4, 5, 6, 7, 8]"
  by (simp add: upt_rec)

lemma gann_levels_exact_increasing:
  assumes "data \<noteq> []" and "Min (set (map Low data)) < Max (set (map High data))"
  shows "sorted_wrt fless (calculate_gann_levels Num data) \<and>
         (\<forall>l \<in> set (calculate_gann_levels Num data). fless (Num (Min (set (map Low data)))) l) \<and>
         last (calculate_gann_levels Num data) = Num (Max (set (map High data)))"
proof -
  define mn where "mn = Min (set (map Low data))"
  define mx where "mx = Max (set (map High data))"
  define level where "level = (\<lambda>i::nat. mn + of_nat i * (mx - mn) / 8)"
  have pos: "0 < mx - mn" using assms(2) by (simp add: mn_def mx_def)
  have levels: "calculate_gann_levels Num data = map (\<lambda>i. Num (level i)) [1..<9]"
    using calculate_gann_levels_nonempty [OF assms(1)] by (simp add: level_def mn_def mx_def)
  have mono: "level i < level j" if "i < j" for i j
  proof -
    have "(of_nat i :: rat) < of_nat j" using that by simp
    then have "of_nat i * (mx - mn) < of_nat j * (mx - mn)"
      using pos by (simp only: mult_strict_right_mono)
    then show ?thesis by (simp add: level_def divide_strict_right_mono)
  qed
  have above: "mn < level i" if "1 \<le> i" for i
  proof -
    have "level 0 = mn" by (simp add: level_def)
    then show ?thesis using mono [of 0 i] that by simp
  qed
  have "sorted_wrt (<) [1..<9::nat]" by simp
  then have "sorted_wrt (\<lambda>i j. fless (Num (level i)) (Num (level j))) [1..<9]"
    by (rule sorted_wrt_mono_rel [rotated]) (use mono in simp)
  then have sorted: "sorted_wrt fless (calculate_gann_levels Num data)"
    by (simp add: levels sorted_wrt_map)
  have gt: "\<forall>l \<in> set (calculate_gann_levels Num data). fless (Num mn) l"
    using above by (auto simp: levels)
  have "level 8 = mx" by (simp add: level_def field_simps)
  then have last: "last (calculate_gann_levels Num data) = Num mx"
    by (simp add: levels upt_1_9)
  show ?thesis using sorted gt last by (simp add: levels mn_def mx_def)
qed

subsection \<open>Monotone rounding\<close>

lemma fle_refl: "x \<noteq> NaN \<Longrightarrow> fle x x"
  by (cases x) simp_all

lemma fle_PInf: "x \<noteq> NaN \<Longrightarrow> fle x PInf"
  by (cases x) simp_all

lemma fle_MInf: "x \<noteq> NaN \<Longrightarrow> fle MInf x"
  by (cases x) simp_all

lemma monotone_not_NaN:
  fixes rnd :: "price \<Rightarrow> pyfloat"
  assumes "\<forall>x y. x \<le> y \<longrightarrow> fle (rnd x) (rnd y)"
  shows "rnd x \<noteq> NaN"
proof
  assume "rnd x = NaN"
  moreover have "fle (rnd x) (rnd x)" using assms by simp
  ultimately show False by simp
qed

lemma fdiv8_mono:
  assumes "\<forall>x y. x \<le> y \<longrightarrow> fle (rnd x) (rnd y)" and "fle u v"
  shows "fle (fdiv8 rnd u) (fdiv8 rnd v)"
proof (cases u)
  case (Num a)
  show ?thesis
  proof (cases v)
    case (Num b)
    with \<open>u = Num a\<close> assms(2) have "a / 8 \<le> b / 8" by simp
    with assms(1) \<open>u = Num a\<close> Num show ?thesis by simp
  next
    case PInf
    with \<open>u = Num a\<close> show ?thesis
      by (simp add: fle_PInf monotone_not_NaN [OF assms(1)])
  qed (use \<open>u = Num a\<close> assms(2) in simp_all)
next
  case MInf
  show ?thesis
  proof (cases v)
    case (Num b)
    with MInf show ?thesis by (simp add: fle_MInf monotone_not_NaN [OF assms(1)])
  qed (use MInf assms(2) in simp_all)
next
  case PInf
  with assms(2) show ?thesis by (cases v) simp_all
next
  case NaN
  with assms(2) show ?thesis by simp
qed

lemma fadd_mono:
  assumes "\<forall>x y. x \<le> y \<longrightarrow> fle (rnd x) (rnd y)" and "fle u v"
  shows "fle (fadd rnd (Num m) u) (fadd rnd (Num m) v)"
proof (cases u)
  case (Num a)
  show ?thesis
  proof (cases v)
    case (Num b)
    with \<open>u = Num a\<close> assms(2) have "m + a \<le> m + b" by simp
    with assms(1) \<open>u = Num a\<close> Num show ?thesis by simp
  next
    case PInf
    with \<open>u = Num a\<close> show ?thesis
      by (simp add: fle_PInf monotone_not_NaN [OF assms(1)])
  qed (use \<open>u = Num a\<close> assms(2) in simp_all)
next
  case MInf
  show ?thesis
  proof (cases v)
    case (Num b)
    with MInf show ?thesis by (simp add: fle_MInf monotone_not_NaN [OF assms(1)])
  qed (use MInf assms(2) in simp_all)
next
  case PInf
  with assms(2) show ?thesis by (cases v) simp_all
next
  case NaN
  with assms(2) show ?thesis by simp
qed

lemma fscale_mono:
  assumes "\<forall>x y. x \<le> y \<longrightarrow> fle (rnd x) (rnd y)" and "fle (Num 0) r"
    and "1 \<le> i" and "i \<le> j"
  shows "fle (fscale rnd i r) (fscale rnd j r)"
proof (cases r)
  case (Num a)
  with assms(2) have "0 \<le> a" by simp
  then have "of_nat i * a \<le> of_nat j * a"
    using assms(4) by (simp add: mult_right_mono)
  with assms(1) Num show ?thesis by simp
next
  case PInf
  with assms(3,4) show ?thesis by simp
qed (use assms(2) in simp_all)

lemma fscale_nonneg:
  assumes "\<forall>x y. x \<le> y \<longrightarrow> fle (rnd x) (rnd y)" and "rnd 0 = Num 0"
    and "fle (Num 0) r" and "1 \<le> i"
  shows "fle (Num 0) (fscale rnd i r)"
proof (cases r)
  case (Num a)
  with assms(3) have "0 \<le> of_nat i * a" by simp
  then have "fle (rnd 0) (rnd (of_nat i * a))" using assms(1) by blast
  with assms(2) Num show ?thesis by simp
next
  case PInf
  with assms(4) show ?thesis by simp
qed (use assms(3) in simp_all)

text \<open>The rounding \<^const>\<open>round_half\<close> is monotone and exact on multiples of \<open>1/2\<close>.\<close>

lemma round_half_mono: "\<forall>x y. x \<le> y \<longrightarrow> fle (round_half x) (round_half y)"
proof (intro allI impI)
  fix x y :: rat
  assume "x \<le> y"
  then have "\<lfloor>2 * x\<rfloor> \<le> \<lfloor>2 * y\<rfloor>" by (simp add: floor_mono)
  then have "(of_int \<lfloor>2 * x\<rfloor> :: rat) / 2 \<le> of_int \<lfloor>2 * y\<rfloor> / 2"
    by (simp add: divide_right_mono)
  with \<open>x \<le> y\<close> show "fle (round_half x) (round_half y)"
    by (auto simp: round_half_def)
qed

lemma floor_rat_divide_numeral: "\<lfloor>numeral a / numeral b :: rat\<rfloor> = numeral a div numeral b"
  by (metis floor_divide_of_int_eq of_int_numeral)

lemma floor_rat_one_divide_numeral: "\<lfloor>1 / numeral b :: rat\<rfloor> = 1 div numeral b"
  by (metis floor_divide_of_int_eq of_int_1 of_int_numeral)


section \<open>The claims\<close>

subsection \<open>C1: the Head and Shoulders rule\<close>

text \<open>
  Claim C1. For a series of at least 5 bars and an index \<open>i\<close> with
  \<open>2 \<le> i \<le> len - 3\<close>, the scan produces a match at \<open>i\<close> exactly when the rule of the
  specification holds at \<open>i\<close>, and that match carries bar \<open>i\<close>'s date and High. The result
  is the matches of the indices before \<open>i\<close>, then the match of \<open>i\<close> if and only if the rule
  holds there, then the matches of the indices after \<open>i\<close>; and when the dates of the
  series are distinct, the matches dated as bar \<open>i\<close> are that one match or none.
\<close>

theorem head_and_shoulders_match_iff:
  assumes "5 \<le> length data" and "2 \<le> i" and "i \<le> length data - 3"
  shows "detect_head_and_shoulders data =
           hs_loop data [2..<i] [] @
           (if head_and_shoulders_rule_spec data i
            then [(Date (data ! i), ''Head and Shoulders'', High (data ! i))] else []) @
           hs_loop data [i + 1..<length data - 2] []
         \<and> (distinct (map Date data) \<longrightarrow>
              filter (\<lambda>m. fst m = Date (data ! i)) (detect_head_and_shoulders data) =
                (if head_and_shoulders_rule_spec data i
                 then [(Date (data ! i), ''Head and Shoulders'', High (data ! i))] else []))"
proof (intro conjI impI)
  have i_lt: "i < length data - 2" using assms by linarith
  have split: "[2..<length data - 2] = [2..<i] @ i # [Suc i..<length data - 2]"
    using upt_split_at [OF assms(2) i_lt] .
  have "hs_loop data ([2..<i] @ i # [Suc i..<length data - 2]) [] =
          hs_loop data [2..<i] [] @ hs_loop data (i # [Suc i..<length data - 2]) []"
    by (rule hs_loop_append)
  moreover have "hs_loop data (i # [Suc i..<length data - 2]) [] =
          (if head_and_shoulders_rule_spec data i then [hs_match data i] else []) @
          hs_loop data [Suc i..<length data - 2] []"
    by (simp add: hs_loop_filter)
  ultimately show "detect_head_and_shoulders data =
           hs_loop data [2..<i] [] @
           (if head_and_shoulders_rule_spec data i then [hs_match data i] else []) @
           hs_loop data [i + 1..<length data - 2] []"
    by (simp add: detect_head_and_shoulders_def split)
next
  assume d: "distinct (map Date data)"
  have i_lt: "i < length data - 2" using assms by linarith
  have same: "Date (data ! j) = Date (data ! i) \<longleftrightarrow> j = i"
    if "j \<in> set [2..<length data - 2]" for j
  proof -
    have "j < length data" and "i < length data" using that i_lt by auto
    then have "map Date data ! j = map Date data ! i \<longleftrightarrow> j = i"
      using d by (simp only: nth_eq_iff_index_eq length_map)
    then show ?thesis using \<open>j < length data\<close> \<open>i < length data\<close> by simp
  qed
  have "filter (\<lambda>m. fst m = Date (data ! i)) (detect_head_and_shoulders data) =
          map (hs_match data)
            (filter (\<lambda>j. Date (data ! j) = Date (data ! i) \<and> head_and_shoulders_rule_spec data j)
               [2..<length data - 2])"
    by (simp add: detect_head_and_shoulders_filter filter_map comp_def conj_commute)
  also have "filter (\<lambda>j. Date (data ! j) = Date (data ! i) \<and> head_and_shoulders_rule_spec data j)
               [2..<length data - 2] =
             filter (\<lambda>j. j = i \<and> head_and_shoulders_rule_spec data j) [2..<length data - 2]"
    by (rule filter_cong) (use same in auto)
  also have "\<dots> = (if head_and_shoulders_rule_spec data i then [i] else [])"
    using assms(2) i_lt by (simp add: filter_eq_index)
  finally show "filter (\<lambda>m. fst m = Date (data ! i)) (detect_head_and_shoulders data) =
                (if head_and_shoulders_rule_spec data i then [hs_match data i] else [])"
    by simp
qed

theorem head_and_shoulders_match_iff_witness:
  "5 \<le> length hs_example \<and> (2::nat) \<le> 2 \<and> 2 \<le> length hs_example - 3 \<and>
   distinct (map Date hs_example) \<and> head_and_shoulders_rule_spec hs_example 2 \<and>
   detect_head_and_shoulders hs_example = [(2, ''Head and Shoulders'', 15)] \<and>
   filter (\<lambda>m. fst m = 2) (detect_head_and_shoulders hs_example) =
     [(2, ''Head and Shoulders'', 15)]"
  using head_and_shoulders_match_iff [of hs_example 2]
  by (simp add: hs_example_def head_and_shoulders_rule_spec_def)

subsection \<open>C2: the specification's Head and Shoulders example\<close>

text \<open>
  Claim C2 as stated fails. With Highs \<open>[10, 12, 15, 13, 11]\<close> the only window is at index
  2, and there the test \<open>head\<close> asks for \<open>High[1] > High[3]\<close>, that is \<open>12 > 13\<close>, and
  \<open>right_shoulder\<close> for \<open>High[3] < High[4]\<close>, that is \<open>13 < 11\<close>: both variants return no
  match.
\<close>

theorem peak_series_counterexample:
  "map High peak_series = [10, 12, 15, 13, 11] \<and>
   detect_patterns peak_series [''Head and Shoulders''] = Inr [(''Head and Shoulders'', [])] \<and>
   detect_patterns_main peak_series ''Head and Shoulders'' = []"
  by (simp add: detect_patterns_only_head_and_shoulders detect_patterns_main_def
      detect_head_and_shoulders_def peak_series_def left_shoulder_def head_def right_shoulder_def)

text \<open>
  Claim C2, amended. For every series whose Highs are \<open>[10, 12, 15, 13, 11]\<close>, detection
  with only Head and Shoulders requested yields no match: the dict of
  \<^verbatim>\<open>data_fetcher.py\<close> has the key with an empty list, \<^verbatim>\<open>main.py\<close> returns the empty
  list.
\<close>

theorem peak_highs_no_match:
  assumes "map High data = [10, 12, 15, 13, 11]"
  shows "detect_patterns data [''Head and Shoulders''] = Inr [(''Head and Shoulders'', [])] \<and>
         detect_patterns_main data ''Head and Shoulders'' = []"
proof -
  note f = five_rows [OF assms]
  have "[2..<length data - 2] = [2]" using f(1) by (simp add: upt_rec)
  moreover have "\<not> head data 2" using f by (simp add: head_def)
  ultimately have "detect_head_and_shoulders data = []"
    by (simp add: detect_head_and_shoulders_def)
  then show ?thesis
    by (simp add: detect_patterns_only_head_and_shoulders detect_patterns_main_def)
qed

theorem peak_highs_no_match_witness:
  "map High peak_series = [10, 12, 15, 13, 11] \<and>
   detect_patterns peak_series [''Head and Shoulders''] = Inr [(''Head and Shoulders'', [])] \<and>
   detect_patterns_main peak_series ''Head and Shoulders'' = []"
proof -
  have h: "map High peak_series = [10, 12, 15, 13, 11]" by (simp add: peak_series_def)
  show ?thesis using h peak_highs_no_match [OF h] by simp
qed

subsection \<open>C3: the specification's inverted example\<close>

text \<open>
  Claim C3 as stated fails. Neither file has a detector for Inverted Head and Shoulders:
  \<^verbatim>\<open>main.py\<close> returns the empty list for that kind, and \<^verbatim>\<open>data_fetcher.py\<close> calls the
  method \<^verbatim>\<open>detect_inverted_head_and_shoulders\<close>, which its class does not define.
\<close>

theorem trough_series_counterexample:
  "map Low trough_series = [15, 13, 10, 12, 14] \<and>
   detect_patterns_main trough_series ''Inverted Head and Shoulders'' = [] \<and>
   detect_patterns trough_series [''Inverted Head and Shoulders''] =
     Inl (AttributeError ''detect_inverted_head_and_shoulders'')"
  by (simp add: detect_patterns_main_def detect_patterns_def method_name_def call_method_def
      trough_series_def)

text \<open>
  The example does not pass the specification's own mirror rule either: at index 2 the
  reversed head test asks for \<open>Low[1] < Low[3]\<close>, that is \<open>13 < 12\<close>.
\<close>

lemma trough_lows_fail_mirror_rule:
  assumes "map Low data = [15, 13, 10, 12, 14]"
  shows "\<not> inverted_head_and_shoulders_rule_spec data 2"
  using five_rows [OF assms] by (simp add: inverted_head_and_shoulders_rule_spec_def)

text \<open>
  Claim C3, amended. For every series, so also for one with Lows \<open>[15, 13, 10, 12, 14]\<close>,
  \<^verbatim>\<open>detect_patterns\<close> of \<^verbatim>\<open>main.py\<close> with Inverted Head and Shoulders requested
  yields no match.
\<close>

theorem inverted_head_and_shoulders_no_match:
  "detect_patterns_main data ''Inverted Head and Shoulders'' = []"
  by (simp add: detect_patterns_main_def)

subsection \<open>C4: the eight Gann levels\<close>



subsection \<open>C5: a series with no bars\<close>

text \<open>
  Claim C5 as stated fails. Neither function checks for an empty series and neither
  raises on one: the scan's range is empty, and the maximum and minimum of an empty
  column are NaN.
\<close>

theorem empty_series_counterexample:
  "detect_patterns [] [''Head and Shoulders''] = Inr [(''Head and Shoulders'', [])] \<and>
   detect_patterns_main [] ''Head and Shoulders'' = [] \<and>
   calculate_gann_levels Num [] = [NaN, NaN, NaN, NaN, NaN, NaN, NaN, NaN]"
  by (simp add: detect_patterns_only_head_and_shoulders detect_patterns_main_def
      detect_head_and_shoulders_def calculate_gann_levels_def upt_rec)

text \<open>
  Claim C5, amended. On a series with zero bars neither operation fails: Head and
  Shoulders detection returns an empty match list (\<^verbatim>\<open>main.py\<close> for any requested kind,
  \<^verbatim>\<open>data_fetcher.py\<close> as the dict with that one key), and \<^verbatim>\<open>calculate_gann_levels\<close>
  returns eight NaN levels, whatever the rounding.
\<close>

theorem empty_series_returns:
  "detect_head_and_shoulders [] = [] \<and>
   detect_patterns_main [] kind = [] \<and>
   detect_patterns [] [''Head and Shoulders''] = Inr [(''Head and Shoulders'', [])] \<and>
   calculate_gann_levels rnd [] = replicate 8 NaN"
proof -
  have "calculate_gann_levels rnd [] = replicate 8 NaN"
    by (simp add: calculate_gann_levels_def upt_1_9 eval_nat_numeral)
  then show ?thesis
    by (simp add: detect_patterns_only_head_and_shoulders detect_patterns_main_def
        detect_head_and_shoulders_def)
qed

subsection \<open>C6: empty and unknown requests\<close>

text \<open>
  Claim C6 as stated fails. An empty request returns the empty dict, and a requested
  string that is not in the catalog matches no branch and is skipped: no error either
  way.
\<close>

theorem invalid_request_counterexample:
  "''Triangle'' \<notin> set available_patterns \<and>
   detect_patterns hs_example [] = Inr [] \<and>
   detect_patterns hs_example [''Triangle''] = Inr [] \<and>
   detect_patterns_main hs_example ''Triangle'' = []"
  by (simp add: available_patterns_def detect_patterns_def method_name_def
      detect_patterns_main_def)

text \<open>
  Claim C6, amended. Detection does not fail on an empty request or on a kind outside
  the catalog. In \<^verbatim>\<open>data_fetcher.py\<close>, when every requested string is Head and
  Shoulders or outside the catalog, the call returns the dict holding the Head and
  Shoulders matches if that kind was requested and the empty dict otherwise (so the
  empty dict for the empty request); in \<^verbatim>\<open>main.py\<close> a kind outside the catalog gives the
  empty list.
\<close>

theorem unknown_kinds_skipped:
  assumes "set selected \<inter> set available_patterns \<subseteq> {''Head and Shoulders''}"
    and "kind \<notin> set available_patterns"
  shows "detect_patterns data selected =
           Inr (if ''Head and Shoulders'' \<in> set selected
                then [(''Head and Shoulders'', detect_head_and_shoulders data)] else []) \<and>
         detect_patterns data [] = Inr [] \<and>
         detect_patterns_main data kind = []"
proof -
  have "kind \<noteq> ''Head and Shoulders''"
    using assms(2) by (auto simp: available_patterns_def)
  then show ?thesis
    using detect_patterns_loop_skips_unknown [OF assms(1), of data "[]"]
    by (simp add: detect_patterns_def detect_patterns_main_def)
qed

theorem unknown_kinds_skipped_witness:
  "set [''Triangle'', ''Head and Shoulders'', ''''] \<inter> set available_patterns
     \<subseteq> {''Head and Shoulders''} \<and>
   ''Triangle'' \<notin> set available_patterns \<and>
   detect_patterns hs_example [''Triangle'', ''Head and Shoulders'', ''''] =
     Inr [(''Head and Shoulders'', [(2, ''Head and Shoulders'', 15)])] \<and>
   detect_patterns hs_example [] = Inr [] \<and>
   detect_patterns_main hs_example ''Triangle'' = []"
proof -
  have h1: "set [''Triangle'', ''Head and Shoulders'', ''''] \<inter> set available_patterns
     \<subseteq> {''Head and Shoulders''}"
    by (simp add: available_patterns_def)
  have h2: "''Triangle'' \<notin> set available_patterns" by (simp add: available_patterns_def)
  have ev: "detect_head_and_shoulders hs_example = [(2, ''Head and Shoulders'', 15)]"
    by (simp add: hs_example_def detect_head_and_shoulders_def left_shoulder_def head_def
        right_shoulder_def)
  show ?thesis
    using h1 h2 ev unknown_kinds_skipped [OF h1 h2, of hs_example] by simp
qed

subsection \<open>C7: the levels increase\<close>

text \<open>
  Claim C7 as stated fails. A series with one bar that did not move has its maximum High
  equal to its minimum Low, the range is 0 and all eight levels are that price: not
  strictly increasing, and not above the minimum Low. No operation rounds on this
  series (the values are 0 and 5), so this is the result in float64 as well.
\<close>

theorem flat_series_counterexample:
  "flat_series \<noteq> [] \<and>
   calculate_gann_levels Num flat_series =
     [Num 5, Num 5, Num 5, Num 5, Num 5, Num 5, Num 5, Num 5] \<and>
   \<not> sorted_wrt fless (calculate_gann_levels Num flat_series) \<and>
   \<not> fless (column_min (map Low flat_series)) (hd (calculate_gann_levels Num flat_series))"
  by (simp add: flat_series_def calculate_gann_levels_def upt_1_9 Let_def)

text \<open>
  Rounding alone also merges levels, with the maximum High above the minimum Low: under
  \<^const>\<open>round_half\<close> the levels of a bar from 1 to 2 are 1, 1, 1, 1.5, 1.5, 1.5, 1.5
  and 2. So strictness is not kept for the arithmetic of the code, only the order.
\<close>

lemma rounding_merges_levels:
  "calculate_gann_levels round_half narrow_series =
     [Num 1, Num 1, Num 1, Num 1.5, Num 1.5, Num 1.5, Num 1.5, Num 2] \<and>
   \<not> sorted_wrt fless (calculate_gann_levels round_half narrow_series) \<and>
   sorted_wrt fle (calculate_gann_levels round_half narrow_series)"
  by (simp add: narrow_series_def calculate_gann_levels_def upt_1_9 Let_def round_half_def
      floor_rat_divide_numeral floor_rat_one_divide_numeral)

text \<open>
  Claim C7, amended. For every series with at least one bar whose maximum High is not
  below its minimum Low, and for every rounding that is monotone and leaves 0 and the
  minimum Low unchanged (float64 on a column of floats), the 8 levels are non-decreasing
  and every level is at least the minimum Low. When moreover the maximum High is
  strictly greater than the minimum Low and the run returns the unrounded values, the
  levels are strictly increasing, every level is strictly greater than the minimum Low,
  and the last level is the maximum High.
\<close>

theorem gann_levels_nondecreasing:
  assumes "data \<noteq> []"
    and "Min (set (map Low data)) \<le> Max (set (map High data))"
    and "\<forall>x y. x \<le> y \<longrightarrow> fle (rnd x) (rnd y)"
    and "rnd 0 = Num 0"
    and "rnd (Min (set (map Low data))) = Num (Min (set (map Low data)))"
  shows "length (calculate_gann_levels rnd data) = 8 \<and>
         sorted_wrt fle (calculate_gann_levels rnd data) \<and>
         (\<forall>l \<in> set (calculate_gann_levels rnd data). fle (Num (Min (set (map Low data)))) l) \<and>
         (Min (set (map Low data)) < Max (set (map High data)) \<and>
          calculate_gann_levels rnd data = calculate_gann_levels Num data \<longrightarrow>
            sorted_wrt fless (calculate_gann_levels rnd data) \<and>
            (\<forall>l \<in> set (calculate_gann_levels rnd data).
               fless (Num (Min (set (map Low data)))) l) \<and>
            last (calculate_gann_levels rnd data) = Num (Max (set (map High data))))"
proof -
  define mn where "mn = Min (set (map Low data))"
  define mx where "mx = Max (set (map High data))"
  define r where "r = fsub rnd (Num mx) (Num mn)"
  define level where "level = (\<lambda>i. fadd rnd (Num mn) (fdiv8 rnd (fscale rnd i r)))"
  note mono = assms(3)
  have levels: "calculate_gann_levels rnd data = map level [1..<9]"
    using calculate_gann_levels_rounded [OF assms(1), of rnd]
    by (simp only: level_def r_def mn_def mx_def)
  have "fle (rnd 0) (rnd (mx - mn))"
    using mono assms(2) by (simp add: mn_def mx_def)
  then have r0: "fle (Num 0) r" by (simp add: r_def assms(4))
  have step: "fle (level i) (level j)" if "1 \<le> i" and "i \<le> j" for i j
    unfolding level_def
    by (intro fadd_mono [OF mono] fdiv8_mono [OF mono] fscale_mono [OF mono r0] that)
  have base: "fle (Num mn) (level i)" if "1 \<le> i" for i
  proof -
    have "fle (fdiv8 rnd (Num 0)) (fdiv8 rnd (fscale rnd i r))"
      by (intro fdiv8_mono [OF mono] fscale_nonneg [OF mono assms(4) r0] that)
    then have "fle (Num 0) (fdiv8 rnd (fscale rnd i r))" by (simp add: assms(4))
    then have "fle (fadd rnd (Num mn) (Num 0)) (level i)"
      unfolding level_def by (rule fadd_mono [OF mono])
    then show ?thesis using assms(5) by (simp add: mn_def)
  qed
  have "sorted_wrt (<) [1..<9::nat]" by simp
  then have "sorted_wrt (\<lambda>i j. fle (level i) (level j)) [1..<9]"
    by (rule sorted_wrt_mono_rel [rotated]) (use step in auto)
  then have sorted: "sorted_wrt fle (calculate_gann_levels rnd data)"
    by (simp add: levels sorted_wrt_map)
  have least: "\<forall>l \<in> set (calculate_gann_levels rnd data). fle (Num mn) l"
    using base by (auto simp: levels)
  have len: "length (calculate_gann_levels rnd data) = 8" by (simp add: levels)
  have exact: "sorted_wrt fless (calculate_gann_levels rnd data) \<and>
            (\<forall>l \<in> set (calculate_gann_levels rnd data). fless (Num mn) l) \<and>
            last (calculate_gann_levels rnd data) = Num mx"
    if "mn < mx" and "calculate_gann_levels rnd data = calculate_gann_levels Num data"
    using gann_levels_exact_increasing [OF assms(1)] that by (simp add: mn_def mx_def)
  show ?thesis
    using len sorted least exact unfolding mn_def mx_def by blast
qed

theorem gann_levels_nondecreasing_witness:
  "span_series \<noteq> [] \<and>
   Min (set (map Low span_series)) < Max (set (map High span_series)) \<and>
   round_half 0 = Num 0 \<and> round_half 100 = Num 100 \<and>
   calculate_gann_levels round_half span_series = calculate_gann_levels Num span_series \<and>
   sorted_wrt fle (calculate_gann_levels round_half span_series) \<and>
   sorted_wrt fless (calculate_gann_levels round_half span_series) \<and>
   last (calculate_gann_levels round_half span_series) = Num 200"
proof -
  have s: "span_series \<noteq> []" by (simp add: span_series_def)
  have m: "Min (set (map Low span_series)) = 100" "Max (set (map High span_series)) = 200"
    by (simp_all add: span_series_def)
  have z: "round_half 0 = Num 0" and c: "round_half 100 = Num 100"
    by (simp_all add: round_half_def)
  have e: "calculate_gann_levels round_half span_series = calculate_gann_levels Num span_series"
    by (simp add: span_series_def calculate_gann_levels_def upt_1_9 Let_def round_half_def)
  show ?thesis
    using gann_levels_nondecreasing [where data = span_series and rnd = round_half]
      round_half_mono s m z c e
    by simp
qed

subsection \<open>C8: series shorter than the window\<close>

text \<open>
  Claim C8. For every pattern kind and every series with fewer bars than that kind's
  window (\<open>lookback + lookahead + 1\<close>, which is 5 for Head and Shoulders), detection of
  that kind yields no matches. The source states a window for Head and Shoulders only
  (the range of its loop), so the windows of the other kinds are a parameter. Head and
  Shoulders returns the empty list in both files; \<^verbatim>\<open>main.py\<close> returns the empty list for
  every kind; whatever \<^verbatim>\<open>data_fetcher.py\<close> returns holds no match.
\<close>

theorem no_match_below_window:
  fixes window :: "string \<Rightarrow> nat"
  assumes "window ''Head and Shoulders'' = 5" and "length data < window kind"
  shows "(kind = ''Head and Shoulders'' \<longrightarrow>
            detect_head_and_shoulders data = [] \<and>
            detect_patterns data [kind] = Inr [(kind, [])]) \<and>
         detect_patterns_main data kind = [] \<and>
         (\<forall>r. detect_patterns data [kind] = Inr r \<longrightarrow> (\<forall>(k, ms) \<in> set r. ms = []))"
proof -
  have short: "detect_head_and_shoulders data = []" if "kind = ''Head and Shoulders''"
    using that assms by (simp add: detect_head_and_shoulders_short)
  have main: "detect_patterns_main data kind = []"
    using short by (simp add: detect_patterns_main_def)
  have hs: "detect_patterns data [kind] = Inr [(kind, [])]" if "kind = ''Head and Shoulders''"
    using that short by (simp add: detect_patterns_only_head_and_shoulders)
  have other: "ms = []" if "detect_patterns data [kind] = Inr r" and "(k, ms) \<in> set r"
    for r k ms
  proof (cases "kind = ''Head and Shoulders''")
    case True
    with that short show ?thesis by (auto simp: detect_patterns_only_head_and_shoulders)
  next
    case False
    then have "detect_patterns data [kind] = Inr [] \<or> isl (detect_patterns data [kind])"
      by (cases "method_name kind")
         (auto simp: detect_patterns_def call_method_def method_name_head_and_shoulders)
    with that show ?thesis by auto
  qed
  show ?thesis using short main hs other by blast
qed

theorem no_match_below_window_witness:
  "length short_series < 5 \<and>
   detect_head_and_shoulders short_series = [] \<and>
   detect_patterns short_series [''Head and Shoulders''] = Inr [(''Head and Shoulders'', [])] \<and>
   detect_patterns_main short_series ''Head and Shoulders'' = []"
  using no_match_below_window
    [of "\<lambda>k. if k = ''Head and Shoulders'' then 5 else 1" short_series "''Head and Shoulders''"]
  by (simp add: short_series_def)

subsection \<open>C9: matches in chronological order\<close>

lemma detect_head_and_shoulders_dates_increasing:
  assumes "sorted_wrt (<) (map Date data)"
  shows "sorted_wrt (<) (map fst (detect_head_and_shoulders data))"
proof -
  have mono: "Date (data ! i) < Date (data ! j)" if "i < j" and "j < length data" for i j
    using assms that sorted_wrt_iff_nth_less [of "(<)" "map Date data"] by auto
  have "sorted_wrt (<) [2..<length data - 2]" by simp
  then have "sorted_wrt (\<lambda>i j. Date (data ! i) < Date (data ! j)) [2..<length data - 2]"
    by (rule sorted_wrt_mono_rel [rotated]) (use mono in auto)
  then have "sorted_wrt (\<lambda>i j. Date (data ! i) < Date (data ! j))
               (filter (head_and_shoulders_rule_spec data) [2..<length data - 2])"
    by (rule sorted_wrt_filter)
  then show ?thesis
    by (simp add: detect_head_and_shoulders_filter sorted_wrt_map comp_def)
qed

text \<open>
  Claim C9. For every series with strictly increasing dates, every match list returned
  is ordered by anchor date and no two of its matches have the same anchor date: the
  list of \<^verbatim>\<open>detect_head_and_shoulders\<close>, the list \<^verbatim>\<open>main.py\<close> returns for any requested
  kind, and each list in the dict \<^verbatim>\<open>data_fetcher.py\<close> returns for any request.
\<close>

theorem matches_chronological:
  assumes "sorted_wrt (<) (map Date data)"
  shows "sorted (map fst (detect_head_and_shoulders data)) \<and>
         distinct (map fst (detect_head_and_shoulders data)) \<and>
         sorted (map fst (detect_patterns_main data kind)) \<and>
         distinct (map fst (detect_patterns_main data kind)) \<and>
         (\<forall>r. detect_patterns data kinds = Inr r \<longrightarrow>
            (\<forall>(k, ms) \<in> set r. sorted (map fst ms) \<and> distinct (map fst ms)))"
proof -
  have hs: "sorted (map fst (detect_head_and_shoulders data)) \<and>
            distinct (map fst (detect_head_and_shoulders data))"
    using detect_head_and_shoulders_dates_increasing [OF assms]
    by (simp add: strict_sorted_iff)
  then have main: "sorted (map fst (detect_patterns_main data kind)) \<and>
                   distinct (map fst (detect_patterns_main data kind))"
    by (simp add: detect_patterns_main_def)
  have "sorted (map fst ms) \<and> distinct (map fst ms)"
    if "detect_patterns data kinds = Inr r" and "(k, ms) \<in> set r" for r k ms
    using detect_patterns_values [OF that] hs by simp
  with hs main show ?thesis by blast
qed

theorem matches_chronological_witness:
  "sorted_wrt (<) (map Date hs_example) \<and>
   map fst (detect_head_and_shoulders hs_example) = [2] \<and>
   sorted (map fst (detect_head_and_shoulders hs_example)) \<and>
   distinct (map fst (detect_head_and_shoulders hs_example)) \<and>
   detect_patterns hs_example [''Head and Shoulders''] =
     Inr [(''Head and Shoulders'', [(2, ''Head and Shoulders'', 15)])]"
  using matches_chronological [of hs_example "''Head and Shoulders''" "[''Head and Shoulders'']"]
  by (simp add: hs_example_def detect_patterns_only_head_and_shoulders
      detect_head_and_shoulders_def left_shoulder_def head_def right_shoulder_def)

subsection \<open>C10: the ten kinds without a detector\<close>

text \<open>
  Claim C10. For every series and every catalog kind other than Head and Shoulders:
  \<^verbatim>\<open>detect_patterns\<close> of \<^verbatim>\<open>data_fetcher.py\<close> dispatches to a method that
  \<^verbatim>\<open>PatternDetector\<close> does not have and raises \<^verbatim>\<open>AttributeError\<close> for it, whether the
  kind is requested alone or among others; \<^verbatim>\<open>detect_patterns\<close> of \<^verbatim>\<open>main.py\<close> returns
  the empty list.
\<close>

theorem other_kinds_not_implemented:
  assumes "kind \<in> set available_patterns" and "kind \<noteq> ''Head and Shoulders''"
  shows "(\<exists>m. method_name kind = Some m \<and> m \<noteq> ''detect_head_and_shoulders'' \<and>
              detect_patterns data [kind] = Inl (AttributeError m)) \<and>
         (kind \<in> set selected \<longrightarrow> isl (detect_patterns data selected)) \<and>
         detect_patterns_main data kind = []"
proof (intro conjI impI)
  obtain m where m: "method_name kind = Some m"
    using assms(1) method_name_None_iff [of kind] by auto
  have ne: "m \<noteq> ''detect_head_and_shoulders''"
    using m assms(2) method_name_head_and_shoulders [of kind] by auto
  then have "detect_patterns data [kind] = Inl (AttributeError m)"
    using m by (simp add: detect_patterns_def call_method_def)
  with m ne show "\<exists>m. method_name kind = Some m \<and> m \<noteq> ''detect_head_and_shoulders'' \<and>
              detect_patterns data [kind] = Inl (AttributeError m)" by blast
next
  assume "kind \<in> set selected"
  then show "isl (detect_patterns data selected)"
    unfolding detect_patterns_def
    using assms by (rule detect_patterns_loop_missing_method)
next
  show "detect_patterns_main data kind = []"
    using assms(2) by (simp add: detect_patterns_main_def)
qed

theorem other_kinds_not_implemented_witness:
  "''Doji'' \<in> set available_patterns \<and> ''Doji'' \<noteq> ''Head and Shoulders'' \<and>
   ''Doji'' \<in> set [''Head and Shoulders'', ''Doji''] \<and>
   detect_patterns hs_example [''Doji''] = Inl (AttributeError ''detect_doji'') \<and>
   detect_patterns hs_example [''Head and Shoulders'', ''Doji''] =
     Inl (AttributeError ''detect_doji'') \<and>
   detect_patterns_main hs_example ''Doji'' = []"
  using other_kinds_not_implemented
    [of "''Doji''" hs_example "[''Head and Shoulders'', ''Doji'']"]
  by (simp add: available_patterns_def detect_patterns_def method_name_def call_method_def)

end
